theory Spec2Isabelle
  imports Main "HOL-Library.Sublist" "HOL-Library.Signed_Division"
begin

section \<open>Time, durations and errors\<close>

text \<open>
  A Go \<^verbatim>\<open>time.Time\<close> is modelled by the instant it denotes: the number of nanoseconds
  since the zero instant (January 1, year 1, 00:00:00 UTC), as an integer. Instants before
  the zero instant are negative, as Go can represent them. The zero value
  \<^verbatim>\<open>time.Time{}\<close> is 0. A \<^verbatim>\<open>time.Duration\<close> is a number of nanoseconds.

  Go keeps an instant as a count of seconds in an \<^verbatim>\<open>int64\<close> and a count of nanoseconds
  in \<open>[0, 999999999]\<close>: the seconds of the instant \<open>t\<close> are \<open>t div Second\<close> and its
  nanoseconds \<open>t mod Second\<close>. The instants a \<^verbatim>\<open>time.Time\<close> can hold are those with
  \<open>validTime\<close>; the last of them is \<open>maxTime\<close>.
\<close>

type_synonym time = int
type_synonym duration = int

definition maxInt64 :: int where
  "maxInt64 = 9223372036854775807"

definition minInt64 :: int where
  "minInt64 = - 9223372036854775808"

text \<open>The value of an \<^verbatim>\<open>int64\<close> computation whose exact result is \<open>x\<close>.\<close>

definition wrap64 :: "int \<Rightarrow> int" where
  "wrap64 x = (x + 9223372036854775808) mod 18446744073709551616 - 9223372036854775808"

definition Second :: duration where
  "Second = 1000000000"

definition Minute :: duration where
  "Minute = 60 * Second"

definition Hour :: duration where
  "Hour = 60 * Minute"

definition validTime :: "time \<Rightarrow> bool" where
  "validTime t = (minInt64 \<le> t div Second \<and> t div Second \<le> maxInt64)"

definition maxTime :: time where
  "maxTime = maxInt64 * Second + (Second - 1)"

definition zeroTime :: time where
  "zeroTime = 0"

definition IsZero :: "time \<Rightarrow> bool" where
  "IsZero t = (t = zeroTime)"

definition After :: "time \<Rightarrow> time \<Rightarrow> bool" where
  "After t u = (u < t)"

text \<open>
  \<^verbatim>\<open>time.Time.Add\<close>, as the standard library computes it. The duration is split into
  seconds and nanoseconds by Go's truncating division, the nanoseconds are added with a
  carry or a borrow, and \<^verbatim>\<open>addSec\<close> adds the seconds: when the \<^verbatim>\<open>int64\<close> sum overflows,
  the seconds are set to \<open>maxInt64\<close> for a positive and to \<open>- maxInt64\<close> for a negative
  addend. The result of \<open>Add\<close> thus stops at the end of the range instead of passing it.
  A reading of the monotonic clock, which a \<^verbatim>\<open>time.Time\<close> may carry besides its instant,
  does not change the instant that \<^verbatim>\<open>Add\<close> returns and is not part of the model.
\<close>

definition addSec :: "int \<Rightarrow> int \<Rightarrow> int" where
  "addSec ext d =
     (let sum = wrap64 (ext + d) in
      if (sum > ext) = (d > 0) then sum
      else if d > 0 then maxInt64
      else - maxInt64)"

definition Add :: "time \<Rightarrow> duration \<Rightarrow> time" where
  "Add t d =
     (let dsec = d sdiv Second;
          nsec = t mod Second + d smod Second in
      if nsec \<ge> Second then addSec (t div Second) (dsec + 1) * Second + (nsec - Second)
      else if nsec < 0 then addSec (t div Second) (dsec - 1) * Second + (nsec + Second)
      else addSec (t div Second) dsec * Second + nsec)"

text \<open>
  Every error return and every run-time panic of the code is a value:
  \<open>ErrRequired\<close> is \<^verbatim>\<open>errors.New("question and answer are required")\<close>,
  \<open>ErrRand m\<close> is a failure of \<^verbatim>\<open>rand.Read\<close> with message \<open>m\<close>, passed on by
  \<^verbatim>\<open>generateID\<close>, \<open>ErrNotFound\<close> is \<^verbatim>\<open>store.ErrNotFound\<close>, \<open>ErrStorage m\<close> is any other
  error of the database, with message \<open>m\<close>, and \<open>PanicIndex i\<close> is the panic of a slice
  indexed at \<open>i\<close> out of range.
\<close>

datatype error = ErrRequired | ErrRand string | ErrNotFound | ErrStorage string | PanicIndex int

text \<open>\<^verbatim>\<open>err.Error()\<close>, the message of an error value; a panic is not an error value.\<close>

fun Error :: "error \<Rightarrow> string" where
  "Error ErrRequired = ''question and answer are required''"
| "Error (ErrRand m) = m"
| "Error ErrNotFound = ''task not found''"
| "Error (ErrStorage m) = m"

text \<open>Go's \<^verbatim>\<open>xs[i]\<close> on a slice: a panic unless \<open>0 \<le> i < len(xs)\<close>.\<close>

definition index :: "'a list \<Rightarrow> int \<Rightarrow> error + 'a" where
  "index xs i = (if 0 \<le> i \<and> i < int (length xs) then Inr (xs ! nat i) else Inl (PanicIndex i))"

section \<open>The standard library's string functions\<close>

text \<open>
  A Go string is a sequence of bytes, here a \<^typ>\<open>string\<close>. \<^verbatim>\<open>strings.TrimSpace\<close> removes
  leading and trailing white space as Unicode defines it (\<^verbatim>\<open>unicode.IsSpace\<close>), decoding
  UTF-8. A code point is white space exactly when it is one of U+0009..U+000D, U+0020,
  U+0085, U+00A0, U+1680, U+2000..U+200A, U+2028, U+2029, U+202F, U+205F, U+3000; the list
  below holds their UTF-8 encodings. A byte sequence that is not the valid encoding of
  such a code point decodes to something that is not white space, and trimming stops there.
\<close>

definition spaceEncodings :: "string list" where
  "spaceEncodings =
     [[CHR 0x09], [CHR 0x0A], [CHR 0x0B], [CHR 0x0C], [CHR 0x0D], [CHR 0x20],
      [CHR 0xC2, CHR 0x85], [CHR 0xC2, CHR 0xA0],
      [CHR 0xE1, CHR 0x9A, CHR 0x80],
      [CHR 0xE2, CHR 0x80, CHR 0x80], [CHR 0xE2, CHR 0x80, CHR 0x81],
      [CHR 0xE2, CHR 0x80, CHR 0x82], [CHR 0xE2, CHR 0x80, CHR 0x83],
      [CHR 0xE2, CHR 0x80, CHR 0x84], [CHR 0xE2, CHR 0x80, CHR 0x85],
      [CHR 0xE2, CHR 0x80, CHR 0x86], [CHR 0xE2, CHR 0x80, CHR 0x87],
      [CHR 0xE2, CHR 0x80, CHR 0x88], [CHR 0xE2, CHR 0x80, CHR 0x89],
      [CHR 0xE2, CHR 0x80, CHR 0x8A],
      [CHR 0xE2, CHR 0x80, CHR 0xA8], [CHR 0xE2, CHR 0x80, CHR 0xA9],
      [CHR 0xE2, CHR 0x80, CHR 0xAF],
      [CHR 0xE2, CHR 0x81, CHR 0x9F],
      [CHR 0xE3, CHR 0x80, CHR 0x80]]"

text \<open>The number of bytes of the white-space code point a string starts with (ends with), 0 if none.\<close>

definition leadingSpace :: "string \<Rightarrow> nat" where
  "leadingSpace s = (case find (\<lambda>e. prefix e s) spaceEncodings of None \<Rightarrow> 0 | Some e \<Rightarrow> length e)"

definition trailingSpace :: "string \<Rightarrow> nat" where
  "trailingSpace s = (case find (\<lambda>e. suffix e s) spaceEncodings of None \<Rightarrow> 0 | Some e \<Rightarrow> length e)"

lemma leadingSpace_le: "leadingSpace s \<le> length s"
proof (cases "find (\<lambda>e. prefix e s) spaceEncodings")
  case None
  then show ?thesis by (simp add: leadingSpace_def)
next
  case (Some e)
  then have "prefix e s" by (auto simp: find_Some_iff)
  then have "length e \<le> length s" by (rule prefix_length_le)
  with Some show ?thesis by (simp add: leadingSpace_def)
qed

lemma trailingSpace_le: "trailingSpace s \<le> length s"
proof (cases "find (\<lambda>e. suffix e s) spaceEncodings")
  case None
  then show ?thesis by (simp add: trailingSpace_def)
next
  case (Some e)
  then have "suffix e s" by (auto simp: find_Some_iff)
  then have "length e \<le> length s" by (rule suffix_length_le)
  with Some show ?thesis by (simp add: trailingSpace_def)
qed

function trimLeft :: "string \<Rightarrow> string" where
  "trimLeft s = (if leadingSpace s = 0 then s else trimLeft (drop (leadingSpace s) s))"
  by pat_completeness auto
termination
proof (relation "measure length")
  show "wf (measure length)" by simp
next
  fix s :: string
  assume "leadingSpace s \<noteq> 0"
  moreover have "leadingSpace s \<le> length s" by (rule leadingSpace_le)
  ultimately show "(drop (leadingSpace s) s, s) \<in> measure length" by simp
qed

function trimRight :: "string \<Rightarrow> string" where
  "trimRight s = (if trailingSpace s = 0 then s else trimRight (take (length s - trailingSpace s) s))"
  by pat_completeness auto
termination
proof (relation "measure length")
  show "wf (measure length)" by simp
next
  fix s :: string
  assume "trailingSpace s \<noteq> 0"
  moreover have "trailingSpace s \<le> length s" by (rule trailingSpace_le)
  ultimately show "(take (length s - trailingSpace s) s, s) \<in> measure length" by simp
qed

declare trimLeft.simps [simp del] trimRight.simps [simp del]

definition TrimSpace :: "string \<Rightarrow> string" where
  "TrimSpace s = trimRight (trimLeft s)"

section \<open>The stage ladder\<close>

definition StageDurations :: "duration list" where
  "StageDurations =
     [5 * Minute, 10 * Minute, 25 * Minute, Hour, 6 * Hour, 24 * Hour, 48 * Hour, 168 * Hour]"

definition TotalStages :: int where
  "TotalStages = int (length StageDurations)"

section \<open>The task entity\<close>

record Task =
  ID :: string
  Question :: string
  Answer :: string
  Stage :: int
  NextReviewAt :: time
  CreatedAt :: time
  UpdatedAt :: time
  CompletedAt :: "time option"

text \<open>
  \<^verbatim>\<open>NewTask\<close>. The outcome of \<^verbatim>\<open>generateID\<close> is the parameter \<open>gen\<close>: \<open>Inr i\<close> for the
  identifier \<open>i\<close> (twelve random bytes in hexadecimal), \<open>Inl m\<close> when the random source
  failed with message \<open>m\<close>.
\<close>

definition NewTask :: "string + string \<Rightarrow> string \<Rightarrow> string \<Rightarrow> time \<Rightarrow> error + Task" where
  "NewTask gen question answer now =
     (let q = TrimSpace question; a = TrimSpace answer in
      if q = [] \<or> a = [] then Inl ErrRequired
      else case gen of
        Inl m \<Rightarrow> Inl (ErrRand m)
      | Inr i \<Rightarrow>
          (case index StageDurations 0 of
             Inl p \<Rightarrow> Inl p
           | Inr d \<Rightarrow>
               Inr \<lparr>ID = i, Question = q, Answer = a, Stage = 0, NextReviewAt = Add now d,
                    CreatedAt = now, UpdatedAt = now, CompletedAt = None\<rparr>))"

definition Status :: "Task \<Rightarrow> time \<Rightarrow> string" where
  "Status t now =
     (if CompletedAt t \<noteq> None \<or> Stage t \<ge> TotalStages then ''done''
      else if \<not> After (NextReviewAt t) now then ''ready''
      else ''pending'')"

text \<open>
  \<^verbatim>\<open>MarkRemembered\<close> and \<^verbatim>\<open>MarkForgot\<close> mutate the task in place; the model returns the
  task after the call, or the panic of the ladder lookup. The stage is a Go \<^verbatim>\<open>int\<close>;
  the only arithmetic on it is the increment, taken when the stage is below
  \<open>TotalStages - 1\<close>, where it cannot overflow.
\<close>

definition MarkRemembered :: "time \<Rightarrow> Task \<Rightarrow> error + Task" where
  "MarkRemembered now t =
     (if CompletedAt t \<noteq> None then Inr t
      else if Stage t \<ge> TotalStages - 1 then
        Inr (t\<lparr>Stage := TotalStages, NextReviewAt := zeroTime, CompletedAt := Some now,
               UpdatedAt := now\<rparr>)
      else
        (let s = Stage t + 1 in
         case index StageDurations s of
           Inl p \<Rightarrow> Inl p
         | Inr d \<Rightarrow> Inr (t\<lparr>Stage := s, NextReviewAt := Add now d, UpdatedAt := now\<rparr>)))"

definition MarkForgot :: "time \<Rightarrow> Task \<Rightarrow> error + Task" where
  "MarkForgot now t =
     (case index StageDurations 0 of
        Inl p \<Rightarrow> Inl p
      | Inr d \<Rightarrow>
          Inr (t\<lparr>Stage := 0, CompletedAt := None, NextReviewAt := Add now d, UpdatedAt := now\<rparr>))"

text \<open>
  \<^verbatim>\<open>UpdateContent\<close> returns an error or nil and mutates the task in place: the model
  returns the task after the call together with the error, \<open>None\<close> for nil.
\<close>

definition UpdateContent :: "string \<Rightarrow> string \<Rightarrow> Task \<Rightarrow> Task \<times> error option" where
  "UpdateContent question answer t =
     (let q = TrimSpace question; a = TrimSpace answer in
      if q = [] \<or> a = [] then (t, Some ErrRequired)
      else (t\<lparr>Question := q, Answer := a\<rparr>, None))"

section \<open>Sequences of operations\<close>

text \<open>\<^verbatim>\<open>MarkRemembered\<close> called once for each \<open>now\<close> of a list, in order.\<close>

fun rememberAll :: "time list \<Rightarrow> Task \<Rightarrow> error + Task" where
  "rememberAll [] t = Inr t"
| "rememberAll (now # nows) t =
     (case MarkRemembered now t of Inl p \<Rightarrow> Inl p | Inr t' \<Rightarrow> rememberAll nows t')"

text \<open>
  A call on an existing task: a review outcome at a time, or a content edit. A sequence
  of calls is run in order; it yields no task when a call panics or when an
  \<^verbatim>\<open>UpdateContent\<close> fails (only successful edits count as steps).
\<close>

datatype call = Remembered time | Forgot time | Update string string

fun apply_call :: "call \<Rightarrow> Task \<Rightarrow> Task option" where
  "apply_call (Remembered now) t = (case MarkRemembered now t of Inl p \<Rightarrow> None | Inr t' \<Rightarrow> Some t')"
| "apply_call (Forgot now) t = (case MarkForgot now t of Inl p \<Rightarrow> None | Inr t' \<Rightarrow> Some t')"
| "apply_call (Update question answer) t =
     (case UpdateContent question answer t of (t', None) \<Rightarrow> Some t' | (t', Some e) \<Rightarrow> None)"

fun run :: "call list \<Rightarrow> Task \<Rightarrow> Task option" where
  "run [] t = Some t"
| "run (c # cs) t = (case apply_call c t of None \<Rightarrow> None | Some t' \<Rightarrow> run cs t')"

text \<open>The times at which the calls of a sequence schedule a review.\<close>

fun call_times :: "call list \<Rightarrow> time list" where
  "call_times [] = []"
| "call_times (Remembered now # cs) = now # call_times cs"
| "call_times (Forgot now # cs) = now # call_times cs"
| "call_times (Update question answer # cs) = call_times cs"

text \<open>
  The data invariants of the specification: \<open>completedAt\<close> is set exactly at stage \<open>N\<close>,
  \<open>nextReviewAt\<close> is the zero time exactly when \<open>completedAt\<close> is set, and the stage is
  in \<open>[0, N]\<close>.
\<close>

definition task_invariant :: "Task \<Rightarrow> bool" where
  "task_invariant t =
     ((CompletedAt t \<noteq> None \<longleftrightarrow> Stage t = TotalStages) \<and>
      (IsZero (NextReviewAt t) \<longleftrightarrow> CompletedAt t \<noteq> None) \<and>
      0 \<le> Stage t \<and> Stage t \<le> TotalStages)"

text \<open>A time that lies exactly one ladder interval before the zero time.\<close>

definition schedules_zero :: "time \<Rightarrow> bool" where
  "schedules_zero now = list_ex (\<lambda>d. IsZero (Add now d)) StageDurations"

text \<open>Whether an outcome is a panic.\<close>

fun panics :: "error + 'a \<Rightarrow> bool" where
  "panics (Inl (PanicIndex i)) = True"
| "panics r = False"

section \<open>The request handlers\<close>

text \<open>
  \<^verbatim>\<open>strings.ToLower\<close>. A string of ASCII bytes only has each of its bytes \<open>A..Z\<close> replaced
  by the lower-case letter. A string with a byte from 0x80 on goes through
  \<^verbatim>\<open>strings.Map(unicode.ToLower, s)\<close>, whose Unicode case tables are not part of the
  repository: that function is the parameter \<open>mapLower\<close>.
\<close>

definition lowerByte :: "char \<Rightarrow> char" where
  "lowerByte c =
     (let n = (of_char c :: nat) in if 0x41 \<le> n \<and> n \<le> 0x5A then char_of (n + 0x20) else c)"

definition ToLower :: "(string \<Rightarrow> string) \<Rightarrow> string \<Rightarrow> string" where
  "ToLower mapLower s =
     (if list_all (\<lambda>c. (of_char c :: nat) < 0x80) s then map lowerByte s else mapLower s)"

record taskResponse =
  respID :: string
  respQuestion :: string
  respAnswer :: string
  respStage :: int
  respTotalStages :: int
  respStatus :: string
  respNextReviewAt :: "time option"
  respCreatedAt :: time
  respUpdatedAt :: time
  respCompletedAt :: "time option"

definition mapTask :: "Task \<Rightarrow> time \<Rightarrow> taskResponse" where
  "mapTask t now =
     \<lparr>respID = ID t, respQuestion = Question t, respAnswer = Answer t, respStage = Stage t,
      respTotalStages = TotalStages, respStatus = Status t now,
      respNextReviewAt = (if \<not> IsZero (NextReviewAt t) then Some (NextReviewAt t) else None),
      respCreatedAt = CreatedAt t, respUpdatedAt = UpdatedAt t,
      respCompletedAt = CompletedAt t\<rparr>"

text \<open>
  A response is a status code with a JSON body: a list of task representations, one task
  representation, or \<^verbatim>\<open>{"error": msg}\<close>. \<open>Panicked\<close> stands for a panic raised inside
  the store, which the handler does not catch. A handler returns its response together with
  the calls it made to the store, in order.
\<close>

datatype body = TaskList "taskResponse list" | TaskBody taskResponse | ErrorBody string

datatype response = JSON nat body | Panicked error

datatype store_call = CallAll | CallReview string bool time

definition writeError :: "nat \<Rightarrow> string \<Rightarrow> response" where
  "writeError status msg = JSON status (ErrorBody msg)"

text \<open>
  \<^verbatim>\<open>listTasks\<close>. The parameter \<open>all\<close> is the outcome of \<^verbatim>\<open>store.All()\<close>, \<open>query\<close> is
  \<^verbatim>\<open>c.Query("status")\<close> (empty when the parameter is absent) and \<open>now\<close> is the one reading
  of the clock. The loop appends to \<open>out\<close>.
\<close>

fun listTasks_loop :: "string \<Rightarrow> time \<Rightarrow> Task list \<Rightarrow> taskResponse list \<Rightarrow> taskResponse list" where
  "listTasks_loop status_filter now [] out = out"
| "listTasks_loop status_filter now (t # ts) out =
     (let tr = mapTask t now in
      if status_filter = [] \<or> status_filter = ''all'' \<or> respStatus tr = status_filter
      then listTasks_loop status_filter now ts (out @ [tr])
      else listTasks_loop status_filter now ts out)"

definition listTasks ::
  "(string \<Rightarrow> string) \<Rightarrow> error + Task list \<Rightarrow> string \<Rightarrow> time \<Rightarrow> response \<times> store_call list" where
  "listTasks mapLower all query now =
     (case all of
        Inl (PanicIndex i) \<Rightarrow> (Panicked (PanicIndex i), [CallAll])
      | Inl err \<Rightarrow> (writeError 500 (Error err), [CallAll])
      | Inr ts \<Rightarrow>
          (let status_filter = ToLower mapLower (TrimSpace query) in
           (JSON 200 (TaskList (listTasks_loop status_filter now ts [])), [CallAll])))"

fun readyTasks_loop :: "time \<Rightarrow> Task list \<Rightarrow> taskResponse list \<Rightarrow> taskResponse list" where
  "readyTasks_loop now [] out = out"
| "readyTasks_loop now (t # ts) out =
     (let tr = mapTask t now in
      if respStatus tr = ''ready''
      then readyTasks_loop now ts (out @ [tr])
      else readyTasks_loop now ts out)"

definition readyTasks :: "error + Task list \<Rightarrow> time \<Rightarrow> response \<times> store_call list" where
  "readyTasks all now =
     (case all of
        Inl (PanicIndex i) \<Rightarrow> (Panicked (PanicIndex i), [CallAll])
      | Inl err \<Rightarrow> (writeError 500 (Error err), [CallAll])
      | Inr ts \<Rightarrow> (JSON 200 (TaskList (readyTasks_loop now ts [])), [CallAll]))"

text \<open>
  \<^verbatim>\<open>reviewTask\<close>. The parameter \<open>bound\<close> is the outcome of \<^verbatim>\<open>c.ShouldBindJSON(&req)\<close>:
  \<open>Some r\<close> with \<open>r\<close> the field \<^verbatim>\<open>req.Result\<close>, or \<open>None\<close> when binding failed. \<open>Review\<close>
  is the store's method, \<open>now1\<close> and \<open>now2\<close> are the two readings of the clock, the first
  passed to the store and the second used for the response. The handler's code after the
  \<^verbatim>\<open>switch\<close>, the same for both review outcomes, is \<open>reviewTask_store\<close>.
\<close>

definition rememberedWords :: "string list" where
  "rememberedWords = [''remembered'', ''remember'', ''ok'', ''done'']"

definition forgotWords :: "string list" where
  "forgotWords = [''forgot'', ''forget'', ''miss'']"

definition resultMessage :: string where
  "resultMessage = ''result must be '' @ [CHR 0x27] @ ''remembered'' @ [CHR 0x27] @ '' or '' @
     [CHR 0x27] @ ''forgot'' @ [CHR 0x27]"

definition reviewTask_store ::
  "(string \<Rightarrow> bool \<Rightarrow> time \<Rightarrow> error + Task) \<Rightarrow> string \<Rightarrow> bool \<Rightarrow> time \<Rightarrow> time \<Rightarrow>
   response \<times> store_call list" where
  "reviewTask_store Review ident remembered now1 now2 =
     (case Review ident remembered now1 of
        Inl (PanicIndex i) \<Rightarrow> (Panicked (PanicIndex i), [CallReview ident remembered now1])
      | Inl ErrNotFound \<Rightarrow> (writeError 404 (Error ErrNotFound), [CallReview ident remembered now1])
      | Inl err \<Rightarrow> (writeError 500 (Error err), [CallReview ident remembered now1])
      | Inr t \<Rightarrow> (JSON 200 (TaskBody (mapTask t now2)), [CallReview ident remembered now1]))"

definition reviewTask ::
  "(string \<Rightarrow> string) \<Rightarrow> (string \<Rightarrow> bool \<Rightarrow> time \<Rightarrow> error + Task) \<Rightarrow> string \<Rightarrow> string option \<Rightarrow>
   time \<Rightarrow> time \<Rightarrow> response \<times> store_call list" where
  "reviewTask mapLower Review ident bound now1 now2 =
     (case bound of
        None \<Rightarrow> (writeError 400 ''invalid json'', [])
      | Some r \<Rightarrow>
          (let result = ToLower mapLower (TrimSpace r) in
           if result \<in> set rememberedWords then reviewTask_store Review ident True now1 now2
           else if result \<in> set forgotWords then reviewTask_store Review ident False now1 now2
           else (writeError 400 resultMessage, [])))"

text \<open>
  \<^verbatim>\<open>Store.Review\<close> on a table whose rows are the association list \<open>rows\<close>, when no
  operation of the database fails: the row is read, the review outcome is applied to it
  and the task is returned. Writing the row back is not part of the outcome.
\<close>

definition Store_Review :: "(string \<times> Task) list \<Rightarrow> string \<Rightarrow> bool \<Rightarrow> time \<Rightarrow> error + Task" where
  "Store_Review rows ident remembered now =
     (case map_of rows ident of
        None \<Rightarrow> Inl ErrNotFound
      | Some t \<Rightarrow> (if remembered then MarkRemembered now t else MarkForgot now t))"

section \<open>Auxiliary invariant\<close>

text \<open>
  The part of the data invariants that does not depend on the times of the calls: a
  completed task is at stage \<open>N\<close> and has the zero time as \<open>nextReviewAt\<close>.
\<close>

definition weak_invariant :: "Task \<Rightarrow> bool" where
  "weak_invariant t =
     ((CompletedAt t \<noteq> None \<longleftrightarrow> Stage t = TotalStages) \<and> 0 \<le> Stage t \<and> Stage t \<le> TotalStages \<and>
      (CompletedAt t \<noteq> None \<longrightarrow> IsZero (NextReviewAt t)))"

section \<open>Facts about the ladder and the string functions\<close>

lemma TotalStages_eq: "TotalStages = 8"
  by (simp add: TotalStages_def StageDurations_def)

lemma length_StageDurations: "length StageDurations = 8"
  by (simp add: StageDurations_def)

lemma index_StageDurations:
  "0 \<le> i \<Longrightarrow> i < 8 \<Longrightarrow> index StageDurations i = Inr (StageDurations ! nat i)"
  by (simp add: index_def length_StageDurations)

lemma ladder_0: "StageDurations ! 0 = 5 * Minute"
  by (simp add: StageDurations_def)

lemma index_ladder_0: "index StageDurations 0 = Inr (StageDurations ! 0)"
  by (simp add: index_def length_StageDurations)

lemma ladder_nonempty: "StageDurations \<noteq> []"
  by (simp add: StageDurations_def)

text \<open>Evaluations of the string functions at the inputs used below.\<close>

lemma trim_q: "TrimSpace [CHR 0x20, CHR 0x09, CHR ''q'', CHR 0x20, CHR ''?'', CHR 0xC2, CHR 0xA0, CHR 0x0A] = ''q ?''"
  by code_simp

lemma trim_q1: "TrimSpace ''q'' = ''q''"
  by code_simp

lemma trim_a: "TrimSpace ''a'' = ''a''"
  by code_simp

lemma trim_blank: "TrimSpace [CHR 0x20, CHR 0x09, CHR 0xE3, CHR 0x80, CHR 0x80] = []"
  by code_simp

lemma trim_empty: "TrimSpace [] = []"
  by code_simp

lemma lower_ready: "ToLower mapLower (TrimSpace ''ready'') = ''ready''"
  by code_simp

lemma lower_OK: "ToLower id (TrimSpace '' OK '') = ''ok''"
  by code_simp

lemma lower_OK1: "ToLower id (TrimSpace ''OK'') = ''ok''"
  by code_simp

lemma lower_Forget: "ToLower id (TrimSpace ''Forget'') = ''forget''"
  by code_simp

lemma lower_maybe: "ToLower id (TrimSpace ''maybe'') = ''maybe''"
  by code_simp

section \<open>Facts about time addition\<close>

lemma wrap64_in: "minInt64 \<le> x \<Longrightarrow> x \<le> maxInt64 \<Longrightarrow> wrap64 x = x"
  unfolding wrap64_def minInt64_def maxInt64_def by simp

lemma wrap64_over:
  assumes "maxInt64 < x" and "x \<le> maxInt64 + 18446744073709551616"
  shows "wrap64 x = x - 18446744073709551616"
proof -
  define y where "y = x + 9223372036854775808 - 18446744073709551616"
  have xy: "x + 9223372036854775808 = y + 18446744073709551616"
    by (simp add: y_def)
  from assms have y: "0 \<le> y" "y < 18446744073709551616"
    by (simp_all add: y_def maxInt64_def)
  have "(y + 18446744073709551616) mod 18446744073709551616 = y mod 18446744073709551616"
    by (rule mod_add_self2)
  also from y have "\<dots> = y"
    by (rule mod_pos_pos_trivial)
  finally show ?thesis
    unfolding wrap64_def xy by (simp add: y_def)
qed

lemma addSec_pos:
  assumes "minInt64 \<le> ext" and "ext \<le> maxInt64" and "0 \<le> d" and "d \<le> maxInt64"
  shows "addSec ext d = (if ext + d \<le> maxInt64 then ext + d else maxInt64)"
proof (cases "ext + d \<le> maxInt64")
  case True
  with assms have "wrap64 (ext + d) = ext + d" by (intro wrap64_in) simp_all
  with True assms show ?thesis by (simp add: addSec_def Let_def)
next
  case False
  with assms have "wrap64 (ext + d) = ext + d - 18446744073709551616"
    by (intro wrap64_over) (simp_all add: maxInt64_def)
  with False assms show ?thesis
    by (auto simp: addSec_def Let_def maxInt64_def minInt64_def)
qed

lemma Second_pos: "0 < Second"
  by (simp add: Second_def)

lemma div_mod_decomp:
  fixes a x c :: int
  assumes "0 \<le> x" and "x < c"
  shows "(a * c + x) div c = a" and "(a * c + x) mod c = x"
  using assms by simp_all

lemma le_maxTime_iff:
  assumes "0 \<le> x" and "x < Second"
  shows "a * Second + x \<le> maxTime \<longleftrightarrow> a \<le> maxInt64"
  using assms unfolding maxTime_def Second_def by linarith

lemma sdiv_smod_nonneg:
  assumes "0 \<le> d"
  shows "d sdiv Second = d div Second" and "d smod Second = d mod Second"
  using assms by (simp_all add: signed_divide_int_def signed_modulo_int_def Second_def sgn_if)

lemma Add_nonneg:
  assumes v: "validTime t" and d0: "0 \<le> d" and d1: "d \<le> maxInt64"
  shows "Add t d = (if t + d \<le> maxTime then t + d else maxInt64 * Second + (t + d) mod Second)"
proof -
  define q where "q = t div Second"
  define r where "r = t mod Second"
  define dq where "dq = d div Second"
  define dr where "dr = d mod Second"
  have t: "t = q * Second + r" and r: "0 \<le> r" "r < Second"
    using Second_pos by (simp_all add: q_def r_def)
  have d: "d = dq * Second + dr" and dr: "0 \<le> dr" "dr < Second"
    using Second_pos by (simp_all add: dq_def dr_def)
  from d0 have dq0: "0 \<le> dq"
    using Second_pos by (simp add: dq_def pos_imp_zdiv_nonneg_iff)
  have "dq < maxInt64"
  proof -
    have "dq * Second \<le> d" using dr d by simp
    with d1 have "dq * 1000000000 \<le> 9223372036854775807" by (simp add: Second_def maxInt64_def)
    then show ?thesis unfolding maxInt64_def by linarith
  qed
  then have dq1: "dq + 1 \<le> maxInt64" by simp
  from v have q: "minInt64 \<le> q" "q \<le> maxInt64" by (simp_all add: validTime_def q_def)
  have unf: "Add t d =
     (if r + dr \<ge> Second then addSec q (dq + 1) * Second + (r + dr - Second)
      else addSec q dq * Second + (r + dr))"
  proof -
    have "\<not> t mod Second + d mod Second < 0"
      using Second_pos by (simp add: add_nonneg_nonneg not_less)
    then show ?thesis
      by (simp add: Add_def Let_def sdiv_smod_nonneg [OF d0] q_def r_def dq_def dr_def)
  qed
  show ?thesis
  proof (cases "r + dr \<ge> Second")
    case True
    have sum: "t + d = (q + (dq + 1)) * Second + (r + dr - Second)"
      by (simp add: t d algebra_simps)
    from True r dr have rem: "0 \<le> r + dr - Second" "r + dr - Second < Second" by simp_all
    have md: "(t + d) mod Second = r + dr - Second"
      unfolding sum using rem by (rule div_mod_decomp(2))
    have a: "addSec q (dq + 1) = (if q + (dq + 1) \<le> maxInt64 then q + (dq + 1) else maxInt64)"
      using q dq0 dq1 by (intro addSec_pos) simp_all
    have le: "t + d \<le> maxTime \<longleftrightarrow> q + (dq + 1) \<le> maxInt64"
      unfolding sum using rem by (rule le_maxTime_iff)
    show ?thesis
      unfolding unf le md a using True sum by simp
  next
    case False
    have sum: "t + d = (q + dq) * Second + (r + dr)"
      by (simp add: t d algebra_simps)
    from False r dr have rem: "0 \<le> r + dr" "r + dr < Second" by simp_all
    have md: "(t + d) mod Second = r + dr"
      unfolding sum using rem by (rule div_mod_decomp(2))
    have a: "addSec q dq = (if q + dq \<le> maxInt64 then q + dq else maxInt64)"
      using q dq0 dq1 by (intro addSec_pos) simp_all
    have le: "t + d \<le> maxTime \<longleftrightarrow> q + dq \<le> maxInt64"
      unfolding sum using rem by (rule le_maxTime_iff)
    show ?thesis
      unfolding unf le md a using False sum by simp
  qed
qed

lemma ladder_entries:
  "list_all (\<lambda>d. 0 \<le> d \<and> d \<le> maxInt64 \<and> d mod Second = 0) StageDurations"
  by code_simp

lemma ladder_entry:
  assumes "0 \<le> i" and "i < 8"
  shows "0 \<le> StageDurations ! nat i" and "StageDurations ! nat i \<le> maxInt64"
    and "StageDurations ! nat i mod Second = 0"
proof -
  from assms have "StageDurations ! nat i \<in> set StageDurations"
    by (intro nth_mem) (simp add: length_StageDurations)
  with ladder_entries
  have "0 \<le> StageDurations ! nat i \<and> StageDurations ! nat i \<le> maxInt64 \<and>
        StageDurations ! nat i mod Second = 0"
    by (simp add: list_all_iff)
  then show "0 \<le> StageDurations ! nat i" and "StageDurations ! nat i \<le> maxInt64"
    and "StageDurations ! nat i mod Second = 0"
    by simp_all
qed

text \<open>
  Adding a ladder interval to a representable instant: the exact sum when it is
  representable, otherwise the last second of the range with the nanoseconds of \<open>now\<close>.
\<close>

lemma Add_ladder:
  assumes "validTime now" and "0 \<le> i" and "i < 8"
  shows "Add now (StageDurations ! nat i) =
           (if now + StageDurations ! nat i \<le> maxTime then now + StageDurations ! nat i
            else maxInt64 * Second + now mod Second)"
proof -
  define d where "d = StageDurations ! nat i"
  from assms(2,3) have d: "0 \<le> d" "d \<le> maxInt64" "d mod Second = 0"
    unfolding d_def by (rule ladder_entry)+
  have "(now + d) mod Second = (now mod Second + d mod Second) mod Second"
    by (simp add: mod_add_eq)
  with d(3) have "(now + d) mod Second = now mod Second"
    by simp
  with Add_nonneg [OF assms(1) d(1) d(2)] show ?thesis
    by (simp add: d_def)
qed

text \<open>Evaluations at the last second of the range.\<close>

lemma validTime_last: "validTime 9223372036854775807000000000"
  by code_simp

lemma validTime_7: "validTime 7"
  by code_simp

lemma validTime_11: "validTime 11"
  by code_simp

section \<open>Review transitions\<close>

text \<open>
  Claim C1. For a task that is not completed and whose stage is in \<open>[0, N-1]\<close>,
  \<^verbatim>\<open>MarkRemembered(now)\<close> at stage \<open>N-1\<close> sets the stage to \<open>N\<close>, clears
  \<open>nextReviewAt\<close> to the zero time and sets \<open>completedAt\<close> to \<open>now\<close>; at a lower stage it
  increments the stage and sets \<open>nextReviewAt\<close> to \<^verbatim>\<open>now.Add\<close> of the ladder entry at the
  incremented stage (so the step from 0 to 1 waits \<open>ladder[1]\<close>); in both cases
  \<open>updatedAt\<close> becomes \<open>now\<close>. On a completed task it changes no field. For a
  representable \<open>now\<close>, \<^verbatim>\<open>now.Add(d)\<close> is the instant \<open>now + d\<close> when that is
  representable, and otherwise the last second of the range with the nanoseconds of
  \<open>now\<close>: at the end of the range \<open>nextReviewAt\<close> is not \<open>now + ladder[stage]\<close>.
\<close>

theorem MarkRemembered_transitions:
  "(CompletedAt t = None \<and> 0 \<le> Stage t \<and> Stage t \<le> TotalStages - 1 \<longrightarrow>
      MarkRemembered now t =
        (if Stage t = TotalStages - 1
         then Inr (t\<lparr>Stage := TotalStages, NextReviewAt := zeroTime, CompletedAt := Some now,
                     UpdatedAt := now\<rparr>)
         else Inr (t\<lparr>Stage := Stage t + 1,
                     NextReviewAt := Add now (StageDurations ! nat (Stage t + 1)),
                     UpdatedAt := now\<rparr>))) \<and>
   (validTime now \<and> 0 \<le> Stage t \<and> Stage t < TotalStages - 1 \<longrightarrow>
      Add now (StageDurations ! nat (Stage t + 1)) =
        (if now + StageDurations ! nat (Stage t + 1) \<le> maxTime
         then now + StageDurations ! nat (Stage t + 1)
         else maxInt64 * Second + now mod Second)) \<and>
   (CompletedAt t \<noteq> None \<longrightarrow> MarkRemembered now t = Inr t)"
proof (intro conjI impI)
  assume h: "CompletedAt t = None \<and> 0 \<le> Stage t \<and> Stage t \<le> TotalStages - 1"
  show "MarkRemembered now t =
        (if Stage t = TotalStages - 1
         then Inr (t\<lparr>Stage := TotalStages, NextReviewAt := zeroTime, CompletedAt := Some now,
                     UpdatedAt := now\<rparr>)
         else Inr (t\<lparr>Stage := Stage t + 1,
                     NextReviewAt := Add now (StageDurations ! nat (Stage t + 1)),
                     UpdatedAt := now\<rparr>))"
  proof (cases "Stage t = TotalStages - 1")
    case True
    with h show ?thesis by (simp add: MarkRemembered_def)
  next
    case False
    with h have lt: "Stage t < 7" and ge: "0 \<le> Stage t" by (simp_all add: TotalStages_eq)
    then have "index StageDurations (Stage t + 1) = Inr (StageDurations ! nat (Stage t + 1))"
      by (intro index_StageDurations) simp_all
    with h False lt show ?thesis
      by (simp add: MarkRemembered_def TotalStages_eq Let_def)
  qed
next
  assume h: "validTime now \<and> 0 \<le> Stage t \<and> Stage t < TotalStages - 1"
  then have "validTime now" and "0 \<le> Stage t + 1" and "Stage t + 1 < 8"
    by (simp_all add: TotalStages_eq)
  then show "Add now (StageDurations ! nat (Stage t + 1)) =
        (if now + StageDurations ! nat (Stage t + 1) \<le> maxTime
         then now + StageDurations ! nat (Stage t + 1)
         else maxInt64 * Second + now mod Second)"
    by (rule Add_ladder)
next
  assume "CompletedAt t \<noteq> None"
  then show "MarkRemembered now t = Inr t" by (simp add: MarkRemembered_def)
qed

theorem MarkRemembered_transitions_witness:
  "MarkRemembered 7
     \<lparr>ID = ''00'', Question = ''q'', Answer = ''a'', Stage = 0, NextReviewAt = 300000000000,
      CreatedAt = 0, UpdatedAt = 0, CompletedAt = None\<rparr> =
   Inr \<lparr>ID = ''00'', Question = ''q'', Answer = ''a'', Stage = 1, NextReviewAt = 600000000007,
        CreatedAt = 0, UpdatedAt = 7, CompletedAt = None\<rparr> \<and>
   MarkRemembered 9
     \<lparr>ID = ''00'', Question = ''q'', Answer = ''a'', Stage = 7, NextReviewAt = 5,
      CreatedAt = 0, UpdatedAt = 0, CompletedAt = None\<rparr> =
   Inr \<lparr>ID = ''00'', Question = ''q'', Answer = ''a'', Stage = 8, NextReviewAt = 0,
        CreatedAt = 0, UpdatedAt = 9, CompletedAt = Some 9\<rparr> \<and>
   MarkRemembered 11
     \<lparr>ID = ''00'', Question = ''q'', Answer = ''a'', Stage = 8, NextReviewAt = 0,
      CreatedAt = 0, UpdatedAt = 9, CompletedAt = Some 9\<rparr> =
   Inr \<lparr>ID = ''00'', Question = ''q'', Answer = ''a'', Stage = 8, NextReviewAt = 0,
        CreatedAt = 0, UpdatedAt = 9, CompletedAt = Some 9\<rparr>"
proof -
  have ladder1: "StageDurations ! nat (0 + 1) = 600000000000"
    by code_simp
  have in_range: "(7 :: int) + 600000000000 \<le> maxTime"
    by code_simp
  from
    MarkRemembered_transitions [of "\<lparr>ID = ''00'', Question = ''q'', Answer = ''a'', Stage = 0,
      NextReviewAt = 300000000000, CreatedAt = 0, UpdatedAt = 0, CompletedAt = None\<rparr>" 7]
    MarkRemembered_transitions [of "\<lparr>ID = ''00'', Question = ''q'', Answer = ''a'', Stage = 7,
      NextReviewAt = 5, CreatedAt = 0, UpdatedAt = 0, CompletedAt = None\<rparr>" 9]
    MarkRemembered_transitions [of "\<lparr>ID = ''00'', Question = ''q'', Answer = ''a'', Stage = 8,
      NextReviewAt = 0, CreatedAt = 0, UpdatedAt = 9, CompletedAt = Some 9\<rparr>" 11]
    validTime_7 ladder1 in_range
  show ?thesis
    by (simp add: TotalStages_eq zeroTime_def)
qed

theorem MarkRemembered_range_end_counterexample:
  "MarkRemembered 9223372036854775807000000000
     \<lparr>ID = ''00'', Question = ''q'', Answer = ''a'', Stage = 0, NextReviewAt = 300000000000,
      CreatedAt = 0, UpdatedAt = 0, CompletedAt = None\<rparr> =
   Inr \<lparr>ID = ''00'', Question = ''q'', Answer = ''a'', Stage = 1,
        NextReviewAt = 9223372036854775807000000000,
        CreatedAt = 0, UpdatedAt = 9223372036854775807000000000, CompletedAt = None\<rparr> \<and>
   validTime 9223372036854775807000000000 \<and>
   (9223372036854775807000000000 :: int) \<noteq> 9223372036854775807000000000 + StageDurations ! 1"
  by code_simp

text \<open>
  Claim C5. For every task, completed or not, \<^verbatim>\<open>MarkForgot(now)\<close> sets the stage to 0,
  clears \<open>completedAt\<close>, sets \<open>nextReviewAt\<close> to \<^verbatim>\<open>now.Add(ladder[0])\<close> and \<open>updatedAt\<close> to
  \<open>now\<close>, and leaves the identifier, the question, the answer and \<open>createdAt\<close> as they
  were. For a representable \<open>now\<close>, \<^verbatim>\<open>now.Add(ladder[0])\<close> is the instant
  \<open>now + ladder[0]\<close> when that is representable, and otherwise the last second of the
  range with the nanoseconds of \<open>now\<close>: at the end of the range \<open>nextReviewAt\<close> is not
  \<open>now + ladder[0]\<close>.
\<close>

theorem MarkForgot_resets:
  "MarkForgot now t =
     Inr \<lparr>ID = ID t, Question = Question t, Answer = Answer t, Stage = 0,
          NextReviewAt = Add now (StageDurations ! 0), CreatedAt = CreatedAt t, UpdatedAt = now,
          CompletedAt = None\<rparr> \<and>
   (validTime now \<longrightarrow>
      Add now (StageDurations ! 0) =
        (if now + StageDurations ! 0 \<le> maxTime then now + StageDurations ! 0
         else maxInt64 * Second + now mod Second))"
proof (intro conjI impI)
  show "MarkForgot now t =
     Inr \<lparr>ID = ID t, Question = Question t, Answer = Answer t, Stage = 0,
          NextReviewAt = Add now (StageDurations ! 0), CreatedAt = CreatedAt t, UpdatedAt = now,
          CompletedAt = None\<rparr>"
    by (simp add: MarkForgot_def index_ladder_0)
next
  assume "validTime now"
  then have "Add now (StageDurations ! nat 0) =
        (if now + StageDurations ! nat 0 \<le> maxTime then now + StageDurations ! nat 0
         else maxInt64 * Second + now mod Second)"
    by (rule Add_ladder) simp_all
  then show "Add now (StageDurations ! 0) =
        (if now + StageDurations ! 0 \<le> maxTime then now + StageDurations ! 0
         else maxInt64 * Second + now mod Second)"
    by simp
qed

theorem MarkForgot_resets_witness:
  "MarkForgot 11
     \<lparr>ID = ''00'', Question = ''q'', Answer = ''a'', Stage = 8, NextReviewAt = 0,
      CreatedAt = 0, UpdatedAt = 9, CompletedAt = Some 9\<rparr> =
   Inr \<lparr>ID = ''00'', Question = ''q'', Answer = ''a'', Stage = 0, NextReviewAt = 300000000011,
        CreatedAt = 0, UpdatedAt = 11, CompletedAt = None\<rparr>"
proof -
  have ladder0: "StageDurations ! 0 = 300000000000"
    by code_simp
  have in_range: "(11 :: int) + 300000000000 \<le> maxTime"
    by code_simp
  from MarkForgot_resets [of 11 "\<lparr>ID = ''00'', Question = ''q'', Answer = ''a'', Stage = 8,
      NextReviewAt = 0, CreatedAt = 0, UpdatedAt = 9, CompletedAt = Some 9\<rparr>"]
    validTime_11 ladder0 in_range
  show ?thesis
    by simp
qed

theorem MarkForgot_range_end_counterexample:
  "MarkForgot 9223372036854775807000000000
     \<lparr>ID = ''00'', Question = ''q'', Answer = ''a'', Stage = 8, NextReviewAt = 0,
      CreatedAt = 0, UpdatedAt = 9, CompletedAt = Some 9\<rparr> =
   Inr \<lparr>ID = ''00'', Question = ''q'', Answer = ''a'', Stage = 0,
        NextReviewAt = 9223372036854775807000000000,
        CreatedAt = 0, UpdatedAt = 9223372036854775807000000000, CompletedAt = None\<rparr> \<and>
   validTime 9223372036854775807000000000 \<and>
   (9223372036854775807000000000 :: int) \<noteq> 9223372036854775807000000000 + StageDurations ! 0"
  by code_simp

section \<open>The derived status\<close>

text \<open>
  Claim C3. \<^verbatim>\<open>Status(now)\<close> is "done" exactly when \<open>completedAt\<close> is set or the stage
  is at least \<open>N\<close>; for any other task it is "ready" exactly when
  \<open>nextReviewAt \<le> now\<close> and "pending" exactly when \<open>nextReviewAt > now\<close>.
\<close>

theorem Status_cases:
  "(Status t now = ''done'' \<longleftrightarrow> CompletedAt t \<noteq> None \<or> Stage t \<ge> TotalStages) \<and>
   (\<not> (CompletedAt t \<noteq> None \<or> Stage t \<ge> TotalStages) \<longrightarrow>
      (Status t now = ''ready'' \<longleftrightarrow> NextReviewAt t \<le> now) \<and>
      (Status t now = ''pending'' \<longleftrightarrow> NextReviewAt t > now))"
  by (simp add: Status_def After_def)

theorem Status_cases_witness:
  "Status \<lparr>ID = ''00'', Question = ''q'', Answer = ''a'', Stage = 2, NextReviewAt = 50,
      CreatedAt = 0, UpdatedAt = 0, CompletedAt = None\<rparr> 50 = ''ready'' \<and>
   Status \<lparr>ID = ''00'', Question = ''q'', Answer = ''a'', Stage = 2, NextReviewAt = 50,
      CreatedAt = 0, UpdatedAt = 0, CompletedAt = None\<rparr> 49 = ''pending'' \<and>
   Status \<lparr>ID = ''00'', Question = ''q'', Answer = ''a'', Stage = 8, NextReviewAt = 50,
      CreatedAt = 0, UpdatedAt = 0, CompletedAt = None\<rparr> 49 = ''done''"
  using
    Status_cases [of "\<lparr>ID = ''00'', Question = ''q'', Answer = ''a'', Stage = 2, NextReviewAt = 50,
      CreatedAt = 0, UpdatedAt = 0, CompletedAt = None\<rparr>" 50]
    Status_cases [of "\<lparr>ID = ''00'', Question = ''q'', Answer = ''a'', Stage = 2, NextReviewAt = 50,
      CreatedAt = 0, UpdatedAt = 0, CompletedAt = None\<rparr>" 49]
    Status_cases [of "\<lparr>ID = ''00'', Question = ''q'', Answer = ''a'', Stage = 8, NextReviewAt = 50,
      CreatedAt = 0, UpdatedAt = 0, CompletedAt = None\<rparr>" 49]
  by (simp add: TotalStages_eq)

section \<open>Creation and content edits\<close>

text \<open>
  Claim C4. \<^verbatim>\<open>NewTask\<close> returns the validation error exactly when the question or the
  answer is empty after trimming white space. Otherwise, with an identifier generated, the
  new task has stage 0, \<open>nextReviewAt\<close> = \<^verbatim>\<open>now.Add(ladder[0])\<close>,
  \<open>createdAt = updatedAt = now\<close>, no \<open>completedAt\<close>, and the trimmed question and answer;
  when the random source fails, its error is returned. For a representable \<open>now\<close>,
  \<^verbatim>\<open>now.Add(ladder[0])\<close> is the instant \<open>now + ladder[0]\<close> when that is representable, and
  otherwise the last second of the range with the nanoseconds of \<open>now\<close>: at the end of
  the range \<open>nextReviewAt\<close> is not \<open>now + ladder[0]\<close>.
\<close>

theorem NewTask_outcomes:
  "(NewTask gen question answer now = Inl ErrRequired \<longleftrightarrow>
      TrimSpace question = [] \<or> TrimSpace answer = []) \<and>
   (TrimSpace question \<noteq> [] \<and> TrimSpace answer \<noteq> [] \<longrightarrow>
      NewTask (Inr i) question answer now =
        Inr \<lparr>ID = i, Question = TrimSpace question, Answer = TrimSpace answer, Stage = 0,
             NextReviewAt = Add now (StageDurations ! 0), CreatedAt = now, UpdatedAt = now,
             CompletedAt = None\<rparr> \<and>
      NewTask (Inl m) question answer now = Inl (ErrRand m)) \<and>
   (validTime now \<longrightarrow>
      Add now (StageDurations ! 0) =
        (if now + StageDurations ! 0 \<le> maxTime then now + StageDurations ! 0
         else maxInt64 * Second + now mod Second))"
proof -
  have outcomes:
    "(NewTask gen question answer now = Inl ErrRequired \<longleftrightarrow>
        TrimSpace question = [] \<or> TrimSpace answer = []) \<and>
     (TrimSpace question \<noteq> [] \<and> TrimSpace answer \<noteq> [] \<longrightarrow>
        NewTask (Inr i) question answer now =
          Inr \<lparr>ID = i, Question = TrimSpace question, Answer = TrimSpace answer, Stage = 0,
               NextReviewAt = Add now (StageDurations ! 0), CreatedAt = now, UpdatedAt = now,
               CompletedAt = None\<rparr> \<and>
        NewTask (Inl m) question answer now = Inl (ErrRand m))"
    by (auto simp: NewTask_def Let_def index_ladder_0 split: sum.splits)
  have "Add now (StageDurations ! 0) =
        (if now + StageDurations ! 0 \<le> maxTime then now + StageDurations ! 0
         else maxInt64 * Second + now mod Second)" if "validTime now"
  proof -
    from that have "Add now (StageDurations ! nat 0) =
        (if now + StageDurations ! nat 0 \<le> maxTime then now + StageDurations ! nat 0
         else maxInt64 * Second + now mod Second)"
      by (rule Add_ladder) simp_all
    then show ?thesis by simp
  qed
  with outcomes show ?thesis by blast
qed

theorem NewTask_outcomes_witness:
  "NewTask (Inr ''00'') [CHR 0x20, CHR 0x09, CHR ''q'', CHR 0x20, CHR ''?'', CHR 0xC2, CHR 0xA0, CHR 0x0A] ''a'' 7 =
     Inr \<lparr>ID = ''00'', Question = ''q ?'', Answer = ''a'', Stage = 0,
          NextReviewAt = 300000000007, CreatedAt = 7, UpdatedAt = 7, CompletedAt = None\<rparr> \<and>
   NewTask (Inr ''00'') ''a'' [CHR 0x20, CHR 0x09, CHR 0xE3, CHR 0x80, CHR 0x80] 7 = Inl ErrRequired"
proof -
  have ladder0: "StageDurations ! 0 = 300000000000"
    by code_simp
  have in_range: "(7 :: int) + 300000000000 \<le> maxTime"
    by code_simp
  from
    NewTask_outcomes [of "Inr ''00''" "[CHR 0x20, CHR 0x09, CHR ''q'', CHR 0x20, CHR ''?'', CHR 0xC2, CHR 0xA0, CHR 0x0A]" "''a''" 7 "''00''"]
    NewTask_outcomes [of "Inr ''00''" "''a''" "[CHR 0x20, CHR 0x09, CHR 0xE3, CHR 0x80, CHR 0x80]" 7]
    validTime_7 ladder0 in_range
  show ?thesis
    by (simp add: trim_q trim_a trim_blank)
qed

theorem NewTask_range_end_counterexample:
  "NewTask (Inr ''00'') ''q'' ''a'' 9223372036854775807000000000 =
     Inr \<lparr>ID = ''00'', Question = ''q'', Answer = ''a'', Stage = 0,
          NextReviewAt = 9223372036854775807000000000,
          CreatedAt = 9223372036854775807000000000,
          UpdatedAt = 9223372036854775807000000000, CompletedAt = None\<rparr> \<and>
   validTime 9223372036854775807000000000 \<and>
   (9223372036854775807000000000 :: int) \<noteq> 9223372036854775807000000000 + StageDurations ! 0"
  by code_simp

text \<open>
  Claim C7. \<^verbatim>\<open>UpdateContent\<close> returns an error exactly when the question or the answer
  is empty after trimming, and then leaves the task as it was; on success it replaces the
  question and the answer by their trimmed forms and leaves the stage, \<open>nextReviewAt\<close>,
  \<open>createdAt\<close>, \<open>updatedAt\<close> and \<open>completedAt\<close> untouched.
\<close>

theorem UpdateContent_outcomes:
  "(snd (UpdateContent question answer t) \<noteq> None \<longleftrightarrow>
      TrimSpace question = [] \<or> TrimSpace answer = []) \<and>
   (snd (UpdateContent question answer t) \<noteq> None \<longrightarrow>
      UpdateContent question answer t = (t, Some ErrRequired)) \<and>
   (snd (UpdateContent question answer t) = None \<longrightarrow>
      fst (UpdateContent question answer t) =
        \<lparr>ID = ID t, Question = TrimSpace question, Answer = TrimSpace answer, Stage = Stage t,
         NextReviewAt = NextReviewAt t, CreatedAt = CreatedAt t, UpdatedAt = UpdatedAt t,
         CompletedAt = CompletedAt t\<rparr>)"
  by (simp add: UpdateContent_def Let_def)

theorem UpdateContent_outcomes_witness:
  "UpdateContent [] ''x''
     \<lparr>ID = ''00'', Question = ''q'', Answer = ''a'', Stage = 3, NextReviewAt = 50,
      CreatedAt = 1, UpdatedAt = 2, CompletedAt = None\<rparr> =
   (\<lparr>ID = ''00'', Question = ''q'', Answer = ''a'', Stage = 3, NextReviewAt = 50,
      CreatedAt = 1, UpdatedAt = 2, CompletedAt = None\<rparr>, Some ErrRequired) \<and>
   fst (UpdateContent [CHR 0x20, CHR 0x09, CHR ''q'', CHR 0x20, CHR ''?'', CHR 0xC2, CHR 0xA0, CHR 0x0A] ''a''
     \<lparr>ID = ''00'', Question = ''q'', Answer = ''b'', Stage = 3, NextReviewAt = 50,
      CreatedAt = 1, UpdatedAt = 2, CompletedAt = None\<rparr>) =
   \<lparr>ID = ''00'', Question = ''q ?'', Answer = ''a'', Stage = 3, NextReviewAt = 50,
      CreatedAt = 1, UpdatedAt = 2, CompletedAt = None\<rparr>"
  using
    UpdateContent_outcomes [of "[]" "''x''" "\<lparr>ID = ''00'', Question = ''q'', Answer = ''a'', Stage = 3,
      NextReviewAt = 50, CreatedAt = 1, UpdatedAt = 2, CompletedAt = None\<rparr>"]
    UpdateContent_outcomes [of "[CHR 0x20, CHR 0x09, CHR ''q'', CHR 0x20, CHR ''?'', CHR 0xC2, CHR 0xA0, CHR 0x0A]" "''a''"
      "\<lparr>ID = ''00'', Question = ''q'', Answer = ''b'', Stage = 3,
      NextReviewAt = 50, CreatedAt = 1, UpdatedAt = 2, CompletedAt = None\<rparr>"]
  by (simp add: trim_q trim_a trim_empty)

section \<open>Ladder lookups stay in bounds\<close>

lemma MarkRemembered_panics_iff:
  "panics (MarkRemembered now t) \<longleftrightarrow> CompletedAt t = None \<and> Stage t < - 1"
  by (auto simp: MarkRemembered_def Let_def index_def TotalStages_eq length_StageDurations)

text \<open>
  Claim C10. For a task with \<open>0 \<le> stage \<le> N\<close> whose stage is below \<open>N\<close> unless it is
  completed, no operation indexes the ladder out of range: \<^verbatim>\<open>MarkRemembered\<close> looks the
  ladder up only at the incremented stage, which is at most \<open>N-1\<close>, and \<^verbatim>\<open>NewTask\<close> and
  \<^verbatim>\<open>MarkForgot\<close> look it up at 0, which exists because the ladder is not empty.
\<close>

theorem ladder_index_in_bounds:
  assumes "0 \<le> Stage t" and "Stage t \<le> TotalStages"
    and "CompletedAt t = None \<longrightarrow> Stage t < TotalStages"
  shows "\<not> panics (MarkRemembered now t) \<and> \<not> panics (MarkForgot now t) \<and>
         \<not> panics (NewTask gen question answer now) \<and>
         (CompletedAt t = None \<and> \<not> Stage t \<ge> TotalStages - 1 \<longrightarrow>
            index StageDurations (Stage t + 1) = Inr (StageDurations ! nat (Stage t + 1)) \<and>
            Stage t + 1 \<le> TotalStages - 1) \<and>
         index StageDurations 0 = Inr (StageDurations ! 0) \<and> StageDurations \<noteq> []"
proof (intro conjI impI)
  show "\<not> panics (MarkRemembered now t)"
    using assms(1) by (simp add: MarkRemembered_panics_iff)
  show "\<not> panics (MarkForgot now t)"
    by (simp add: MarkForgot_def index_ladder_0)
  show "\<not> panics (NewTask gen question answer now)"
    by (simp add: NewTask_def Let_def index_ladder_0 split: sum.splits)
  show "index StageDurations 0 = Inr (StageDurations ! 0)"
    by (rule index_ladder_0)
  show "StageDurations \<noteq> []"
    by (rule ladder_nonempty)
next
  assume h: "CompletedAt t = None \<and> \<not> Stage t \<ge> TotalStages - 1"
  then have lt: "Stage t < 7" by (simp add: TotalStages_eq)
  with assms(1) show "index StageDurations (Stage t + 1) = Inr (StageDurations ! nat (Stage t + 1))"
    by (intro index_StageDurations) simp_all
  from lt show "Stage t + 1 \<le> TotalStages - 1" by (simp add: TotalStages_eq)
qed

theorem ladder_index_in_bounds_witness:
  "\<not> panics (MarkRemembered 7
      \<lparr>ID = ''00'', Question = ''q'', Answer = ''a'', Stage = 6, NextReviewAt = 50,
       CreatedAt = 1, UpdatedAt = 2, CompletedAt = None\<rparr>) \<and>
   \<not> panics (MarkForgot 7
      \<lparr>ID = ''00'', Question = ''q'', Answer = ''a'', Stage = 6, NextReviewAt = 50,
       CreatedAt = 1, UpdatedAt = 2, CompletedAt = None\<rparr>) \<and>
   index StageDurations 7 = Inr (604800000000000)"
  using ladder_index_in_bounds [of "\<lparr>ID = ''00'', Question = ''q'', Answer = ''a'', Stage = 6,
      NextReviewAt = 50, CreatedAt = 1, UpdatedAt = 2, CompletedAt = None\<rparr>" 7]
  by (simp add: TotalStages_eq StageDurations_def Minute_def Hour_def Second_def)

section \<open>Remembering through the whole ladder\<close>

lemma rememberAll_completes:
  "CompletedAt t = None \<Longrightarrow> 0 \<le> Stage t \<Longrightarrow> Stage t < 8 \<Longrightarrow>
   int (length nows) = 8 - Stage t \<Longrightarrow>
   rememberAll nows t =
     Inr \<lparr>ID = ID t, Question = Question t, Answer = Answer t, Stage = 8,
          NextReviewAt = zeroTime, CreatedAt = CreatedAt t, UpdatedAt = last nows,
          CompletedAt = Some (last nows)\<rparr>"
proof (induction nows arbitrary: t)
  case Nil
  then show ?case by simp
next
  case (Cons now nows)
  show ?case
  proof (cases "Stage t = 7")
    case True
    with Cons.prems have "nows = []" by simp
    with True Cons.prems show ?thesis
      by (simp add: MarkRemembered_def TotalStages_eq)
  next
    case False
    with Cons.prems have lt: "Stage t < 7" by simp
    with Cons.prems have ix: "index StageDurations (Stage t + 1) = Inr (StageDurations ! nat (Stage t + 1))"
      by (intro index_StageDurations) simp_all
    define t' where "t' = t\<lparr>Stage := Stage t + 1,
      NextReviewAt := Add now (StageDurations ! nat (Stage t + 1)), UpdatedAt := now\<rparr>"
    from lt Cons.prems ix have step: "MarkRemembered now t = Inr t'"
      by (simp add: MarkRemembered_def TotalStages_eq Let_def t'_def)
    from lt Cons.prems have ne: "nows \<noteq> []" by auto
    have "rememberAll nows t' =
      Inr \<lparr>ID = ID t', Question = Question t', Answer = Answer t', Stage = 8,
          NextReviewAt = zeroTime, CreatedAt = CreatedAt t', UpdatedAt = last nows,
          CompletedAt = Some (last nows)\<rparr>"
      using lt Cons.prems by (intro Cons.IH) (simp_all add: t'_def)
    with step ne show ?thesis by (simp add: t'_def)
  qed
qed

text \<open>
  Claim C6. From a freshly created task, \<^verbatim>\<open>MarkRemembered\<close> applied \<open>N\<close> times, at any
  times (increasing or not), yields a task with \<open>completedAt\<close> set and status "done";
  one more \<^verbatim>\<open>MarkRemembered\<close> on that task changes no field.
\<close>

theorem remembered_N_times_done:
  assumes "NewTask gen question answer now0 = Inr t0" and "int (length nows) = TotalStages"
  shows "\<exists>t. rememberAll nows t0 = Inr t \<and> CompletedAt t = Some (last nows) \<and>
             Stage t = TotalStages \<and> Status t now = ''done'' \<and>
             MarkRemembered now' t = Inr t"
proof -
  from assms(1) have t0: "CompletedAt t0 = None" "Stage t0 = 0"
    by (auto simp: NewTask_def Let_def index_ladder_0 split: if_splits sum.splits)
  with assms(2) have "rememberAll nows t0 =
     Inr \<lparr>ID = ID t0, Question = Question t0, Answer = Answer t0, Stage = 8,
          NextReviewAt = zeroTime, CreatedAt = CreatedAt t0, UpdatedAt = last nows,
          CompletedAt = Some (last nows)\<rparr>"
    by (intro rememberAll_completes) (simp_all add: TotalStages_eq)
  then show ?thesis
    by (simp add: TotalStages_eq Status_def MarkRemembered_def)
qed

theorem remembered_N_times_done_witness:
  "NewTask (Inr ''00'') ''q'' ''a'' 0 =
     Inr \<lparr>ID = ''00'', Question = ''q'', Answer = ''a'', Stage = 0, NextReviewAt = 300000000000,
          CreatedAt = 0, UpdatedAt = 0, CompletedAt = None\<rparr> \<and>
   rememberAll [1, 2, 3, 4, 5, 6, 7, 8]
     \<lparr>ID = ''00'', Question = ''q'', Answer = ''a'', Stage = 0, NextReviewAt = 300000000000,
      CreatedAt = 0, UpdatedAt = 0, CompletedAt = None\<rparr> =
     Inr \<lparr>ID = ''00'', Question = ''q'', Answer = ''a'', Stage = 8, NextReviewAt = 0,
          CreatedAt = 0, UpdatedAt = 8, CompletedAt = Some 8\<rparr> \<and>
   Status \<lparr>ID = ''00'', Question = ''q'', Answer = ''a'', Stage = 8, NextReviewAt = 0,
          CreatedAt = 0, UpdatedAt = 8, CompletedAt = Some 8\<rparr> 9 = ''done'' \<and>
   MarkRemembered 9 \<lparr>ID = ''00'', Question = ''q'', Answer = ''a'', Stage = 8, NextReviewAt = 0,
          CreatedAt = 0, UpdatedAt = 8, CompletedAt = Some 8\<rparr> =
     Inr \<lparr>ID = ''00'', Question = ''q'', Answer = ''a'', Stage = 8, NextReviewAt = 0,
          CreatedAt = 0, UpdatedAt = 8, CompletedAt = Some 8\<rparr>"
proof -
  have new: "NewTask (Inr ''00'') ''q'' ''a'' 0 =
     Inr \<lparr>ID = ''00'', Question = ''q'', Answer = ''a'', Stage = 0, NextReviewAt = 300000000000,
          CreatedAt = 0, UpdatedAt = 0, CompletedAt = None\<rparr>"
    by code_simp
  have len: "int (length [1, 2, 3, 4, 5, 6, 7, 8 :: int]) = TotalStages"
    by (simp add: TotalStages_eq)
  have run: "rememberAll [1, 2, 3, 4, 5, 6, 7, 8]
     \<lparr>ID = ''00'', Question = ''q'', Answer = ''a'', Stage = 0, NextReviewAt = 300000000000,
      CreatedAt = 0, UpdatedAt = 0, CompletedAt = None\<rparr> =
     Inr \<lparr>ID = ''00'', Question = ''q'', Answer = ''a'', Stage = 8, NextReviewAt = 0,
          CreatedAt = 0, UpdatedAt = 8, CompletedAt = Some 8\<rparr>"
    by (simp add: MarkRemembered_def TotalStages_eq index_def StageDurations_def Let_def zeroTime_def)
  from remembered_N_times_done [OF new len, of 9 9] new run show ?thesis
    by (auto simp: TotalStages_eq)
qed

section \<open>Invariants of reachable tasks\<close>

lemma not_schedules_zero:
  assumes "\<not> schedules_zero now" and "0 \<le> i" and "i < 8"
  shows "\<not> IsZero (Add now (StageDurations ! nat i))"
proof -
  from assms(2,3) have "StageDurations ! nat i \<in> set StageDurations"
    by (intro nth_mem) (simp add: length_StageDurations)
  with assms(1) show ?thesis
    by (auto simp: schedules_zero_def list_ex_iff)
qed

lemma NewTask_weak: "NewTask gen question answer now = Inr t \<Longrightarrow> weak_invariant t"
  by (auto simp: NewTask_def Let_def index_ladder_0 weak_invariant_def TotalStages_eq
      split: if_splits sum.splits)

lemma NewTask_strong:
  assumes "NewTask gen question answer now = Inr t" and "\<not> schedules_zero now"
  shows "task_invariant t"
proof -
  from assms(2) have "\<not> IsZero (Add now (StageDurations ! nat 0))"
    by (intro not_schedules_zero) simp_all
  with assms(1) show ?thesis
    by (auto simp: NewTask_def Let_def index_ladder_0 task_invariant_def TotalStages_eq
        split: if_splits sum.splits)
qed

lemma MarkRemembered_weak:
  assumes "weak_invariant t" and "MarkRemembered now t = Inr t'"
  shows "weak_invariant t'"
proof (cases "CompletedAt t \<noteq> None \<or> Stage t \<ge> TotalStages - 1")
  case True
  with assms show ?thesis
    by (auto simp: MarkRemembered_def weak_invariant_def IsZero_def split: if_splits)
next
  case False
  with assms(1) have "0 \<le> Stage t" "Stage t < 7"
    by (simp_all add: weak_invariant_def TotalStages_eq)
  then have "index StageDurations (Stage t + 1) = Inr (StageDurations ! nat (Stage t + 1))"
    by (intro index_StageDurations) simp_all
  with False assms show ?thesis
    by (auto simp: MarkRemembered_def Let_def weak_invariant_def TotalStages_eq)
qed

lemma MarkRemembered_strong:
  assumes "task_invariant t" and "MarkRemembered now t = Inr t'" and "\<not> schedules_zero now"
  shows "task_invariant t'"
proof (cases "CompletedAt t \<noteq> None \<or> Stage t \<ge> TotalStages - 1")
  case True
  with assms(1,2) show ?thesis
    by (auto simp: MarkRemembered_def task_invariant_def IsZero_def split: if_splits)
next
  case False
  with assms(1) have bounds: "0 \<le> Stage t" "Stage t < 7"
    by (simp_all add: task_invariant_def TotalStages_eq)
  then have ix: "index StageDurations (Stage t + 1) = Inr (StageDurations ! nat (Stage t + 1))"
    by (intro index_StageDurations) simp_all
  from bounds assms(3) have "\<not> IsZero (Add now (StageDurations ! nat (Stage t + 1)))"
    by (intro not_schedules_zero) simp_all
  with ix False assms(1,2) show ?thesis
    by (auto simp: MarkRemembered_def Let_def task_invariant_def TotalStages_eq)
qed

lemma MarkForgot_weak: "MarkForgot now t = Inr t' \<Longrightarrow> weak_invariant t'"
  by (auto simp: MarkForgot_def index_ladder_0 weak_invariant_def TotalStages_eq)

lemma MarkForgot_strong:
  assumes "MarkForgot now t = Inr t'" and "\<not> schedules_zero now"
  shows "task_invariant t'"
proof -
  from assms(2) have "\<not> IsZero (Add now (StageDurations ! nat 0))"
    by (intro not_schedules_zero) simp_all
  with assms(1) show ?thesis
    by (auto simp: MarkForgot_def index_ladder_0 task_invariant_def TotalStages_eq)
qed

lemma UpdateContent_weak:
  "weak_invariant t \<Longrightarrow> UpdateContent question answer t = (t', None) \<Longrightarrow> weak_invariant t'"
  by (auto simp: UpdateContent_def Let_def weak_invariant_def split: if_splits)

lemma UpdateContent_strong:
  "task_invariant t \<Longrightarrow> UpdateContent question answer t = (t', None) \<Longrightarrow> task_invariant t'"
  by (auto simp: UpdateContent_def Let_def task_invariant_def split: if_splits)

lemma apply_call_weak:
  "weak_invariant t \<Longrightarrow> apply_call c t = Some t' \<Longrightarrow> weak_invariant t'"
proof (cases c)
  case (Remembered now)
  assume "weak_invariant t" "apply_call c t = Some t'"
  with Remembered show ?thesis
    by (auto split: sum.splits intro: MarkRemembered_weak)
next
  case (Forgot now)
  assume "weak_invariant t" "apply_call c t = Some t'"
  with Forgot show ?thesis
    by (auto split: sum.splits intro: MarkForgot_weak)
next
  case (Update question answer)
  assume "weak_invariant t" "apply_call c t = Some t'"
  with Update show ?thesis
    by (auto split: prod.splits option.splits intro: UpdateContent_weak)
qed

lemma run_weak: "weak_invariant t \<Longrightarrow> run cs t = Some t' \<Longrightarrow> weak_invariant t'"
proof (induction cs arbitrary: t)
  case Nil
  then show ?case by simp
next
  case (Cons c cs)
  then show ?case
    by (auto split: option.splits dest: apply_call_weak)
qed

lemma apply_call_strong:
  assumes "task_invariant t" and "apply_call c t = Some t'"
    and "\<not> list_ex schedules_zero (call_times [c])"
  shows "task_invariant t'"
proof (cases c)
  case (Remembered now)
  with assms show ?thesis
    by (auto split: sum.splits intro: MarkRemembered_strong)
next
  case (Forgot now)
  with assms show ?thesis
    by (auto split: sum.splits intro: MarkForgot_strong)
next
  case (Update question answer)
  with assms show ?thesis
    by (auto split: prod.splits option.splits intro: UpdateContent_strong)
qed

lemma call_times_Cons: "call_times (c # cs) = call_times [c] @ call_times cs"
  by (cases c) simp_all

lemma run_strong:
  "task_invariant t \<Longrightarrow> run cs t = Some t' \<Longrightarrow> \<not> list_ex schedules_zero (call_times cs) \<Longrightarrow>
   task_invariant t'"
proof (induction cs arbitrary: t)
  case Nil
  then show ?case by simp
next
  case (Cons c cs)
  from Cons.prems(2) obtain t1 where step: "apply_call c t = Some t1" and rest: "run cs t1 = Some t'"
    by (auto split: option.splits)
  from Cons.prems(3) have now: "\<not> list_ex schedules_zero (call_times [c])"
    and nows: "\<not> list_ex schedules_zero (call_times cs)"
    by (simp_all add: call_times_Cons [of c cs] list_ex_iff)
  from Cons.prems(1) step now have "task_invariant t1" by (rule apply_call_strong)
  from this rest nows show ?case by (rule Cons.IH)
qed

text \<open>
  Claim C2. For every task reached from \<^verbatim>\<open>NewTask\<close> by a sequence of
  \<^verbatim>\<open>MarkRemembered\<close>, \<^verbatim>\<open>MarkForgot\<close> and successful \<^verbatim>\<open>UpdateContent\<close> calls:
  \<open>completedAt\<close> is set exactly when the stage is \<open>N\<close>, the stage is in \<open>[0, N]\<close>, and
  \<open>nextReviewAt\<close> is the zero time whenever \<open>completedAt\<close> is set. When no call, the
  creation included, happened at a time lying exactly one ladder interval before the zero
  time, \<open>nextReviewAt\<close> is the zero time only when \<open>completedAt\<close> is set. Without that
  condition the last part fails: a task created five minutes before the zero time is
  not completed and has the zero time as \<open>nextReviewAt\<close>.
\<close>

theorem reachable_invariant:
  assumes "NewTask gen question answer now0 = Inr t0" and "run cs t0 = Some t"
  shows "(CompletedAt t \<noteq> None \<longleftrightarrow> Stage t = TotalStages) \<and> 0 \<le> Stage t \<and> Stage t \<le> TotalStages \<and>
         (CompletedAt t \<noteq> None \<longrightarrow> IsZero (NextReviewAt t)) \<and>
         (\<not> list_ex schedules_zero (now0 # call_times cs) \<longrightarrow> task_invariant t)"
proof -
  from assms(1) have "weak_invariant t0" by (rule NewTask_weak)
  from this assms(2) have "weak_invariant t" by (rule run_weak)
  moreover have "task_invariant t" if safe: "\<not> list_ex schedules_zero (now0 # call_times cs)"
  proof -
    from safe have "\<not> schedules_zero now0" and rest: "\<not> list_ex schedules_zero (call_times cs)"
      by simp_all
    with assms(1) have "task_invariant t0" by (intro NewTask_strong)
    from this assms(2) rest show ?thesis by (rule run_strong)
  qed
  ultimately show ?thesis by (simp add: weak_invariant_def)
qed

theorem reachable_invariant_witness:
  "NewTask (Inr ''00'') ''q'' ''a'' 0 =
     Inr \<lparr>ID = ''00'', Question = ''q'', Answer = ''a'', Stage = 0, NextReviewAt = 300000000000,
          CreatedAt = 0, UpdatedAt = 0, CompletedAt = None\<rparr> \<and>
   run [Remembered 1, Update ''q'' ''a'', Forgot 2, Remembered 3]
     \<lparr>ID = ''00'', Question = ''q'', Answer = ''a'', Stage = 0, NextReviewAt = 300000000000,
      CreatedAt = 0, UpdatedAt = 0, CompletedAt = None\<rparr> =
     Some \<lparr>ID = ''00'', Question = ''q'', Answer = ''a'', Stage = 1, NextReviewAt = 600000000003,
           CreatedAt = 0, UpdatedAt = 3, CompletedAt = None\<rparr> \<and>
   \<not> list_ex schedules_zero (0 # call_times [Remembered 1, Update ''q'' ''a'', Forgot 2, Remembered 3]) \<and>
   task_invariant \<lparr>ID = ''00'', Question = ''q'', Answer = ''a'', Stage = 1,
     NextReviewAt = 600000000003, CreatedAt = 0, UpdatedAt = 3, CompletedAt = None\<rparr>"
proof -
  have new: "NewTask (Inr ''00'') ''q'' ''a'' 0 =
     Inr \<lparr>ID = ''00'', Question = ''q'', Answer = ''a'', Stage = 0, NextReviewAt = 300000000000,
          CreatedAt = 0, UpdatedAt = 0, CompletedAt = None\<rparr>"
    by code_simp
  have run: "run [Remembered 1, Update ''q'' ''a'', Forgot 2, Remembered 3]
     \<lparr>ID = ''00'', Question = ''q'', Answer = ''a'', Stage = 0, NextReviewAt = 300000000000,
      CreatedAt = 0, UpdatedAt = 0, CompletedAt = None\<rparr> =
     Some \<lparr>ID = ''00'', Question = ''q'', Answer = ''a'', Stage = 1, NextReviewAt = 600000000003,
           CreatedAt = 0, UpdatedAt = 3, CompletedAt = None\<rparr>"
    by code_simp
  have safe: "\<not> list_ex schedules_zero (0 # call_times [Remembered 1, Update ''q'' ''a'', Forgot 2, Remembered 3])"
    by code_simp
  from reachable_invariant [OF new run] new run safe show ?thesis
    by simp
qed

theorem zero_review_time_counterexample:
  "NewTask (Inr ''00'') ''q'' ''a'' (- 300000000000) =
     Inr \<lparr>ID = ''00'', Question = ''q'', Answer = ''a'', Stage = 0, NextReviewAt = 0,
          CreatedAt = - 300000000000, UpdatedAt = - 300000000000, CompletedAt = None\<rparr> \<and>
   run [] \<lparr>ID = ''00'', Question = ''q'', Answer = ''a'', Stage = 0, NextReviewAt = 0,
          CreatedAt = - 300000000000, UpdatedAt = - 300000000000, CompletedAt = None\<rparr> =
     Some \<lparr>ID = ''00'', Question = ''q'', Answer = ''a'', Stage = 0, NextReviewAt = 0,
          CreatedAt = - 300000000000, UpdatedAt = - 300000000000, CompletedAt = None\<rparr> \<and>
   \<not> task_invariant \<lparr>ID = ''00'', Question = ''q'', Answer = ''a'', Stage = 0, NextReviewAt = 0,
          CreatedAt = - 300000000000, UpdatedAt = - 300000000000, CompletedAt = None\<rparr>"
  by code_simp

section \<open>The review handler\<close>

lemma reviewTask_store_calls:
  "snd (reviewTask_store Review ident remembered now1 now2) = [CallReview ident remembered now1]"
  by (simp add: reviewTask_store_def split: sum.splits error.splits)

text \<open>
  Claim C8. For a review request whose body binds with field \<open>result\<close>, the handler
  decides on the result trimmed of white space and put in lower case: it calls the store
  with the remembered outcome exactly when that string is one of "remembered", "remember",
  "ok", "done", with the forgot outcome exactly when it is one of "forgot", "forget",
  "miss", and otherwise responds 400 without any call to the store; a body that does not
  bind is answered 400 without any call to the store as well. The upper-case "OK" is
  therefore accepted as remembered, although it is none of the listed words.
\<close>

theorem reviewTask_routes:
  "(snd (reviewTask mapLower Review ident (Some r) now1 now2) = [CallReview ident True now1] \<longleftrightarrow>
      ToLower mapLower (TrimSpace r) \<in> set rememberedWords) \<and>
   (snd (reviewTask mapLower Review ident (Some r) now1 now2) = [CallReview ident False now1] \<longleftrightarrow>
      ToLower mapLower (TrimSpace r) \<in> set forgotWords) \<and>
   (ToLower mapLower (TrimSpace r) \<in> set rememberedWords \<longrightarrow>
      reviewTask mapLower Review ident (Some r) now1 now2 =
        reviewTask_store Review ident True now1 now2) \<and>
   (ToLower mapLower (TrimSpace r) \<in> set forgotWords \<longrightarrow>
      reviewTask mapLower Review ident (Some r) now1 now2 =
        reviewTask_store Review ident False now1 now2) \<and>
   (ToLower mapLower (TrimSpace r) \<notin> set rememberedWords \<and>
    ToLower mapLower (TrimSpace r) \<notin> set forgotWords \<longrightarrow>
      reviewTask mapLower Review ident (Some r) now1 now2 = (JSON 400 (ErrorBody resultMessage), [])) \<and>
   reviewTask mapLower Review ident None now1 now2 = (JSON 400 (ErrorBody ''invalid json''), [])"
proof -
  have disjoint: "set rememberedWords \<inter> set forgotWords = {}"
    by (simp add: rememberedWords_def forgotWords_def)
  then show ?thesis
    by (auto simp: reviewTask_def Let_def reviewTask_store_calls writeError_def)
qed

theorem reviewTask_routes_witness:
  "reviewTask id (Store_Review [(''00'',
       \<lparr>ID = ''00'', Question = ''q'', Answer = ''a'', Stage = 0, NextReviewAt = 300000000000,
        CreatedAt = 0, UpdatedAt = 0, CompletedAt = None\<rparr>)]) ''00'' (Some '' OK '') 7 8 =
     (JSON 200 (TaskBody
        \<lparr>respID = ''00'', respQuestion = ''q'', respAnswer = ''a'', respStage = 1,
         respTotalStages = 8, respStatus = ''pending'', respNextReviewAt = Some 600000000007,
         respCreatedAt = 0, respUpdatedAt = 7, respCompletedAt = None\<rparr>),
      [CallReview ''00'' True 7]) \<and>
   snd (reviewTask id (Store_Review []) ''00'' (Some ''Forget'') 7 8) = [CallReview ''00'' False 7] \<and>
   reviewTask id (Store_Review []) ''00'' (Some ''maybe'') 7 8 = (JSON 400 (ErrorBody resultMessage), [])"
proof -
  have store: "reviewTask_store (Store_Review [(''00'',
       \<lparr>ID = ''00'', Question = ''q'', Answer = ''a'', Stage = 0, NextReviewAt = 300000000000,
        CreatedAt = 0, UpdatedAt = 0, CompletedAt = None\<rparr>)]) ''00'' True 7 8 =
     (JSON 200 (TaskBody
        \<lparr>respID = ''00'', respQuestion = ''q'', respAnswer = ''a'', respStage = 1,
         respTotalStages = 8, respStatus = ''pending'', respNextReviewAt = Some 600000000007,
         respCreatedAt = 0, respUpdatedAt = 7, respCompletedAt = None\<rparr>),
      [CallReview ''00'' True 7])"
    by code_simp
  from
    reviewTask_routes [of id "Store_Review [(''00'',
       \<lparr>ID = ''00'', Question = ''q'', Answer = ''a'', Stage = 0, NextReviewAt = 300000000000,
        CreatedAt = 0, UpdatedAt = 0, CompletedAt = None\<rparr>)]" "''00''" "'' OK ''" 7 8]
    reviewTask_routes [of id "Store_Review []" "''00''" "''Forget''" 7 8]
    reviewTask_routes [of id "Store_Review []" "''00''" "''maybe''" 7 8]
    store
  show ?thesis
    by (simp add: lower_OK lower_Forget lower_maybe rememberedWords_def forgotWords_def
        reviewTask_store_calls)
qed

theorem reviewTask_result_counterexample:
  "''OK'' \<notin> set rememberedWords \<and>
   reviewTask id (Store_Review [(''00'',
       \<lparr>ID = ''00'', Question = ''q'', Answer = ''a'', Stage = 0, NextReviewAt = 300000000000,
        CreatedAt = 0, UpdatedAt = 0, CompletedAt = None\<rparr>)]) ''00'' (Some ''OK'') 7 8 =
     (JSON 200 (TaskBody
        \<lparr>respID = ''00'', respQuestion = ''q'', respAnswer = ''a'', respStage = 1,
         respTotalStages = 8, respStatus = ''pending'', respNextReviewAt = Some 600000000007,
         respCreatedAt = 0, respUpdatedAt = 7, respCompletedAt = None\<rparr>),
      [CallReview ''00'' True 7])"
  by code_simp

section \<open>The two ready listings\<close>

lemma listTasks_loop_ready:
  "listTasks_loop ''ready'' now ts out =
     out @ map (\<lambda>t. mapTask t now) (filter (\<lambda>t. Status t now = ''ready'') ts)"
  by (induction ts arbitrary: out) (simp_all add: Let_def mapTask_def)

lemma readyTasks_loop_ready:
  "readyTasks_loop now ts out =
     out @ map (\<lambda>t. mapTask t now) (filter (\<lambda>t. Status t now = ''ready'') ts)"
  by (induction ts arbitrary: out) (simp_all add: Let_def mapTask_def)

text \<open>
  Claim C9. For every outcome of reading the store and every \<open>now\<close>, the response of
  \<^verbatim>\<open>GET /tasks?status=ready\<close> is the response of \<^verbatim>\<open>GET /tasks/ready\<close>: the
  representations of the tasks whose status at \<open>now\<close> is "ready", in the order of the
  store, or the same response to a failure of the store (500 with the error's message).
\<close>

theorem ready_routes_agree:
  "listTasks mapLower all ''ready'' now = readyTasks all now \<and>
   readyTasks (Inr ts) now =
     (JSON 200 (TaskList (map (\<lambda>t. mapTask t now) (filter (\<lambda>t. Status t now = ''ready'') ts))),
      [CallAll]) \<and>
   readyTasks (Inl (ErrStorage m)) now = (JSON 500 (ErrorBody m), [CallAll])"
  by (simp add: listTasks_def readyTasks_def lower_ready listTasks_loop_ready
      readyTasks_loop_ready writeError_def split: sum.splits error.splits)

theorem ready_routes_agree_witness:
  "listTasks id (Inr [
      \<lparr>ID = ''00'', Question = ''q'', Answer = ''a'', Stage = 0, NextReviewAt = 10,
       CreatedAt = 0, UpdatedAt = 0, CompletedAt = None\<rparr>,
      \<lparr>ID = ''01'', Question = ''q'', Answer = ''a'', Stage = 8, NextReviewAt = 0,
       CreatedAt = 0, UpdatedAt = 5, CompletedAt = Some 5\<rparr>,
      \<lparr>ID = ''02'', Question = ''q'', Answer = ''a'', Stage = 2, NextReviewAt = 30,
       CreatedAt = 0, UpdatedAt = 0, CompletedAt = None\<rparr>,
      \<lparr>ID = ''03'', Question = ''q'', Answer = ''a'', Stage = 3, NextReviewAt = 20,
       CreatedAt = 0, UpdatedAt = 0, CompletedAt = None\<rparr>]) ''ready'' 20 =
   (JSON 200 (TaskList [
      \<lparr>respID = ''00'', respQuestion = ''q'', respAnswer = ''a'', respStage = 0,
       respTotalStages = 8, respStatus = ''ready'', respNextReviewAt = Some 10,
       respCreatedAt = 0, respUpdatedAt = 0, respCompletedAt = None\<rparr>,
      \<lparr>respID = ''03'', respQuestion = ''q'', respAnswer = ''a'', respStage = 3,
       respTotalStages = 8, respStatus = ''ready'', respNextReviewAt = Some 20,
       respCreatedAt = 0, respUpdatedAt = 0, respCompletedAt = None\<rparr>]), [CallAll])"
  using ready_routes_agree [of id "Inr [
      \<lparr>ID = ''00'', Question = ''q'', Answer = ''a'', Stage = 0, NextReviewAt = 10,
       CreatedAt = 0, UpdatedAt = 0, CompletedAt = None\<rparr>,
      \<lparr>ID = ''01'', Question = ''q'', Answer = ''a'', Stage = 8, NextReviewAt = 0,
       CreatedAt = 0, UpdatedAt = 5, CompletedAt = Some 5\<rparr>,
      \<lparr>ID = ''02'', Question = ''q'', Answer = ''a'', Stage = 2, NextReviewAt = 30,
       CreatedAt = 0, UpdatedAt = 0, CompletedAt = None\<rparr>,
      \<lparr>ID = ''03'', Question = ''q'', Answer = ''a'', Stage = 3, NextReviewAt = 20,
       CreatedAt = 0, UpdatedAt = 0, CompletedAt = None\<rparr>]" 20]
  by (simp add: readyTasks_def Let_def mapTask_def Status_def After_def IsZero_def zeroTime_def
      TotalStages_eq)

end
